theory Spec2Isabelle
  imports Complex_Main "HOL-Library.Word"
begin

section \<open>JavaScript values used by script.ts\<close>

text \<open>
  A JavaScript string is a sequence of UTF-16 code units. The marker character of
  script.ts, the Hebrew letter alef, is the single code unit U+05D0.
\<close>

type_synonym jschar = "16 word"
type_synonym jsstring = "jschar list"

definition alef :: jschar where
  "alef = 0x05D0"

definition space :: jschar where
  "space = 0x0020"

text \<open>
  A JavaScript \<^verbatim>\<open>number\<close>: the three special values of a double and the finite ones.
  Only the classification of a value (NaN, infinite, finite, integral) is used by
  script.ts, no arithmetic, so a finite value is kept as a rational.
\<close>

datatype jsnumber = NaN | PosInfinity | NegInfinity | Finite rat

text \<open>\<^verbatim>\<open>isNaN(x)\<close> and \<^verbatim>\<open>Number.isNaN(x)\<close> on an argument that already is a number.\<close>

definition isNaN :: "jsnumber \<Rightarrow> bool" where
  "isNaN x = (case x of NaN \<Rightarrow> True | _ \<Rightarrow> False)"

definition Number_isNaN :: "jsnumber \<Rightarrow> bool" where
  "Number_isNaN x = (case x of NaN \<Rightarrow> True | _ \<Rightarrow> False)"

definition Number_isInteger :: "jsnumber \<Rightarrow> bool" where
  "Number_isInteger x = (case x of Finite q \<Rightarrow> of_int \<lfloor>q\<rfloor> = q | _ \<Rightarrow> False)"

text \<open>
  \<^verbatim>\<open>Number(s)\<close> for a string \<open>s\<close> of exactly one code unit, which is what
  \<^verbatim>\<open>input.charAt(i)\<close> is for \<open>i < input.length\<close>: a decimal digit is its value, a
  white space or line terminator character trims to the empty string and is 0, every
  other single code unit is NaN.
\<close>

definition is_digit :: "jschar \<Rightarrow> bool" where
  "is_digit c = (0x0030 \<le> c \<and> c \<le> 0x0039)"

definition is_StrWhiteSpaceChar :: "jschar \<Rightarrow> bool" where
  "is_StrWhiteSpaceChar c =
     (c \<in> {0x0009, 0x000A, 0x000B, 0x000C, 0x000D, 0x0020, 0x00A0, 0x1680,
            0x2028, 0x2029, 0x202F, 0x205F, 0x3000, 0xFEFF}
      \<or> (0x2000 \<le> c \<and> c \<le> 0x200A))"

definition Number_charAt :: "jschar \<Rightarrow> jsnumber" where
  "Number_charAt c =
     (if is_digit c then Finite (of_nat (unat c - 48))
      else if is_StrWhiteSpaceChar c then Finite 0
      else NaN)"

text \<open>\<^verbatim>\<open>s.startsWith(c)\<close>, \<^verbatim>\<open>s.indexOf(c)\<close> (\<open>-1\<close> when absent) and
  \<^verbatim>\<open>s.substring(n)\<close> for a one-unit search string \<open>c\<close>.\<close>

definition startsWith :: "jsstring \<Rightarrow> jschar \<Rightarrow> bool" where
  "startsWith s c = (case s of [] \<Rightarrow> False | x # _ \<Rightarrow> x = c)"

fun indexOf_from :: "jsstring \<Rightarrow> jschar \<Rightarrow> int \<Rightarrow> int" where
  "indexOf_from [] c i = -1"
| "indexOf_from (x # xs) c i = (if x = c then i else indexOf_from xs c (i + 1))"

definition indexOf :: "jsstring \<Rightarrow> jschar \<Rightarrow> int" where
  "indexOf s c = indexOf_from s c 0"

definition substring :: "jsstring \<Rightarrow> int \<Rightarrow> jsstring" where
  "substring s n = drop (nat n) s"

section \<open>The data model\<close>

text \<open>\<^verbatim>\<open>interface ExcelDataRow { channel: number; frequency: number; }\<close>\<close>

record ExcelDataRow =
  channel :: jsnumber
  frequency :: jsnumber

text \<open>
  The part of ExcelJS that script.ts reads. \<^verbatim>\<open>ExcelJS.ValueType\<close> is the enumeration
  of cell types; a cell offers \<^verbatim>\<open>value\<close>, \<^verbatim>\<open>type\<close> and \<^verbatim>\<open>text\<close>. Of a cell value only
  its \<^verbatim>\<open>typeof\<close> and, for a string, its contents matter to the script. The three fields
  of a cell are inputs here, with no relation assumed between them.
\<close>

datatype ValueType =
  Null | Merge | Number | String | Date | Hyperlink | Formula | SharedString
  | RichText | Boolean | Error

datatype cell_value =
  NullValue | NumberValue jsnumber | StringValue jsstring | BooleanValue bool | ObjectValue

record cell =
  cvalue :: cell_value
  ctype :: ValueType
  ctext :: jsstring

text \<open>A row offers \<^verbatim>\<open>getCell(1)\<close> and \<^verbatim>\<open>getCell(2)\<close>.\<close>

record row =
  cell1 :: cell
  cell2 :: cell

text \<open>
  A worksheet is its array of rows; an entry is \<open>None\<close> where the sheet has no row
  or the row has no values, and \<^verbatim>\<open>eachRow\<close> passes such entries over. The row at
  position \<open>i\<close> of the array (from 0) has row number \<open>i + 1\<close>. A workbook maps
  worksheet ids to worksheets.
\<close>

type_synonym worksheet = "row option list"
type_synonym workbook = "nat \<rightharpoonup> worksheet"

text \<open>What a rejected promise or a \<^verbatim>\<open>throw\<close> carries.\<close>

datatype store_call =
  FindFirst jsnumber | Update jsnumber jsnumber | Create jsnumber jsnumber | FindMany
  | Disconnect

datatype error = ReadFileFailed | StoreCallFailed store_call | RecordNotFound

text \<open>
  The lines written to the console, one constructor for each message of script.ts:
  \<^item> \<open>Err_WorksheetUndefined\<close>: \<^verbatim>\<open>console.error('Error: Worksheet is undefined.')\<close>
  \<^item> \<open>Err_InvalidChannel n\<close>: \<^verbatim>\<open>console.error(`Error: Invalid channel value at row ${n}. Skipping this row.`)\<close>
  \<^item> \<open>Err_InvalidFrequency n\<close>: \<^verbatim>\<open>console.error(`Error: Invalid frequency value at row ${n}. Skipping this row.`)\<close>
  \<^item> \<open>Err_EmptyFrequency n\<close>: \<^verbatim>\<open>console.error(`Error: Empty frequency cell at row ${n}. Skipping this row.`)\<close>
  \<^item> \<open>Err_ReadingFile e\<close>: \<^verbatim>\<open>console.error('Error reading the Excel file:', e)\<close>
  \<^item> \<open>Log_DataUploaded\<close>: \<^verbatim>\<open>console.log('Data uploaded to the database.')\<close>
  \<^item> \<open>Err_UpdatingData e\<close>: \<^verbatim>\<open>console.error('Error updating data:', e)\<close>
  \<^item> \<open>Log_FetchedData d\<close>: \<^verbatim>\<open>console.log('Fetched Data:', d)\<close>
  \<^item> \<open>Err_FetchingData e\<close>: \<^verbatim>\<open>console.error('Error fetching data:', e)\<close>
  \<^item> \<open>Log_Completed\<close>: \<^verbatim>\<open>console.log('The program successfully completed.')\<close>
  \<^item> \<open>Err_Main e\<close>: \<^verbatim>\<open>console.error('Error:', e)\<close>
\<close>

datatype console_line =
  Err_WorksheetUndefined
  | Err_InvalidChannel nat
  | Err_InvalidFrequency nat
  | Err_EmptyFrequency nat
  | Err_ReadingFile error
  | Log_DataUploaded
  | Err_UpdatingData error
  | Log_FetchedData "ExcelDataRow list"
  | Err_FetchingData error
  | Log_Completed
  | Err_Main error

text \<open>Whether a line went through \<^verbatim>\<open>console.error\<close>, and the row number it names.\<close>

fun is_error_line :: "console_line \<Rightarrow> bool" where
  "is_error_line Log_DataUploaded = False"
| "is_error_line (Log_FetchedData d) = False"
| "is_error_line Log_Completed = False"
| "is_error_line l = True"

fun row_number_of :: "console_line \<Rightarrow> nat option" where
  "row_number_of (Err_InvalidChannel n) = Some n"
| "row_number_of (Err_InvalidFrequency n) = Some n"
| "row_number_of (Err_EmptyFrequency n) = Some n"
| "row_number_of l = None"

text \<open>
  The state the program acts on: the console, and the store behind the Prisma
  client.

  Modelled from the spec: the Prisma schema and the generated client are not part of
  script.ts. The spec describes the store as a single table of rows with the fields
  \<open>channel\<close> and \<open>frequency\<close>, with the operations find-by-channel, update-by-channel,
  create and find-all, each of which may fail; uniqueness of \<open>channel\<close> is not a
  constraint of the table. So the table is a list of rows, in insertion order, in which
  a channel may occur more than once.
  \<^item> \<open>faults\<close> is the schedule of store failures: the next call of the client fails
    when the head of the list is \<open>True\<close>; each call consumes one entry; a call
    made when the schedule is used up succeeds. A failed call leaves the table as
    it was.
  \<^item> \<open>calls\<close> records the calls made on the client, in order (it is not read by the
    program).
  \<^item> \<open>connected\<close> tells whether the client holds its connection.
\<close>

record world =
  console :: "console_line list"
  table :: "ExcelDataRow list"
  faults :: "bool list"
  calls :: "store_call list"
  connected :: bool

definition console_write :: "console_line \<Rightarrow> world \<Rightarrow> world" where
  "console_write l w = w\<lparr>console := console w @ [l]\<rparr>"

text \<open>
  The JavaScript built-ins and the file system that script.ts relies on and that are
  taken as given: \<^verbatim>\<open>parseInt\<close>, \<^verbatim>\<open>parseFloat\<close>, and
  \<^verbatim>\<open>workbook.xlsx.readFile\<close>, which yields the workbook stored at a path or throws.
\<close>

record runtime =
  parseInt :: "jsstring \<Rightarrow> jsnumber"
  parseFloat :: "jsstring \<Rightarrow> jsnumber"
  readFile :: "string \<Rightarrow> error + workbook"

section \<open>The extractor: isValidChannelFormat and readExcelFile\<close>

text \<open>
  The loop of \<^verbatim>\<open>isValidChannelFormat\<close> over the code units that are left, with the flag
  \<^verbatim>\<open>foundAleph\<close>. Both branches of the inner test return false, and so does the end of
  the loop, as in the source.
\<close>

fun isValidChannelFormat_loop :: "jsstring \<Rightarrow> bool \<Rightarrow> bool" where
  "isValidChannelFormat_loop [] foundAleph = False"
| "isValidChannelFormat_loop (c # cs) foundAleph =
     (if c = alef then isValidChannelFormat_loop cs True
      else if foundAleph then
        (if c = space \<or> \<not> isNaN (Number_charAt c) then False else False)
      else isValidChannelFormat_loop cs foundAleph)"

definition isValidChannelFormat :: "jsstring \<Rightarrow> bool" where
  "isValidChannelFormat input = isValidChannelFormat_loop input False"

text \<open>The condition of line 34 under which a row is skipped for its channel cell.\<close>

definition invalid_channel :: "cell_value \<Rightarrow> bool" where
  "invalid_channel v =
     (case v of
        StringValue s \<Rightarrow>
          \<not> startsWith s alef \<or> indexOf s alef = -1 \<or> \<not> isValidChannelFormat s
      | _ \<Rightarrow> True)"

text \<open>The test of line 50 on the parsed frequency.\<close>

definition frequency_accepted :: "jsnumber \<Rightarrow> bool" where
  "frequency_accepted f = (\<not> isNaN f \<and> (Number_isInteger f \<or> \<not> Number_isNaN f))"

text \<open>
  The callback of \<^verbatim>\<open>eachRow\<close>, acting on the array \<^verbatim>\<open>excelData\<close> and the console.
  \<open>row_frequency\<close> is lines 40 to 60, what the callback does with a row once its
  channel cell was let through; \<open>row_callback\<close> is the whole callback.
\<close>

definition row_frequency ::
  "runtime \<Rightarrow> row \<Rightarrow> nat \<Rightarrow> jsstring \<Rightarrow> ExcelDataRow list \<times> world \<Rightarrow> ExcelDataRow list \<times> world"
where
  "row_frequency rt r rowNumber channelCellValue st =
     (case st of (excelData, w) \<Rightarrow>
        let indexOfAlef = indexOf channelCellValue alef;
            ch = parseInt rt (substring channelCellValue (indexOfAlef + 1));
            frequencyCell = cell2 r
        in if ctype frequencyCell \<noteq> Null then
             (let fr = parseFloat rt (ctext frequencyCell)
              in if frequency_accepted fr
                 then (excelData @ [\<lparr>channel = ch, frequency = fr\<rparr>], w)
                 else (excelData, console_write (Err_InvalidFrequency rowNumber) w))
           else (excelData, console_write (Err_EmptyFrequency rowNumber) w))"

definition row_callback ::
  "runtime \<Rightarrow> row \<Rightarrow> nat \<Rightarrow> ExcelDataRow list \<times> world \<Rightarrow> ExcelDataRow list \<times> world"
where
  "row_callback rt r rowNumber st =
     (let channelCellValue = cvalue (cell1 r)
      in if invalid_channel channelCellValue
         then (fst st, console_write (Err_InvalidChannel rowNumber) (snd st))
         else (case channelCellValue of
                 StringValue s \<Rightarrow> row_frequency rt r rowNumber s st
               | _ \<Rightarrow> st))"

text \<open>\<^verbatim>\<open>worksheet.eachRow\<close>: the callback on every row that is there, with its row number.\<close>

fun eachRow_from ::
  "(row \<Rightarrow> nat \<Rightarrow> 's \<Rightarrow> 's) \<Rightarrow> worksheet \<Rightarrow> nat \<Rightarrow> 's \<Rightarrow> 's"
where
  "eachRow_from f [] n st = st"
| "eachRow_from f (None # rs) n st = eachRow_from f rs (Suc n) st"
| "eachRow_from f (Some r # rs) n st = eachRow_from f rs (Suc n) (f r n st)"

definition eachRow :: "worksheet \<Rightarrow> (row \<Rightarrow> nat \<Rightarrow> 's \<Rightarrow> 's) \<Rightarrow> 's \<Rightarrow> 's" where
  "eachRow ws f st = eachRow_from f ws 1 st"

text \<open>
  \<open>readExcelFile_try\<close> is the body of the \<^verbatim>\<open>try\<close> block: it throws what
  \<^verbatim>\<open>readFile\<close> throws. \<open>readExcelFile\<close> adds the \<^verbatim>\<open>catch\<close>. A result \<open>Inl e\<close> is a
  rejected promise, \<open>Inr v\<close> one resolved to \<open>v\<close>.
\<close>

definition readExcelFile_try ::
  "runtime \<Rightarrow> string \<Rightarrow> world \<Rightarrow> (error + ExcelDataRow list) \<times> world"
where
  "readExcelFile_try rt filePath w =
     (case readFile rt filePath of
        Inl e \<Rightarrow> (Inl e, w)
      | Inr wb \<Rightarrow>
          (case wb 1 of
             None \<Rightarrow> (Inr [], console_write Err_WorksheetUndefined w)
           | Some ws \<Rightarrow>
               (case eachRow ws (row_callback rt) ([], w) of
                  (excelData, w') \<Rightarrow> (Inr excelData, w'))))"

definition readExcelFile ::
  "runtime \<Rightarrow> string \<Rightarrow> world \<Rightarrow> (error + ExcelDataRow list) \<times> world"
where
  "readExcelFile rt filePath w =
     (case readExcelFile_try rt filePath w of
        (Inl e, w') \<Rightarrow> (Inr [], console_write (Err_ReadingFile e) w')
      | (Inr excelData, w') \<Rightarrow> (Inr excelData, w'))"

section \<open>The store behind the Prisma client\<close>

text \<open>
  Modelled from the spec: the client's operations on the table (the Prisma schema and
  the generated client are not part of script.ts). Every call is recorded and takes
  its outcome from the fault schedule.
\<close>

definition client_call :: "store_call \<Rightarrow> world \<Rightarrow> bool \<times> world" where
  "client_call c w =
     (case faults w of
        [] \<Rightarrow> (False, w\<lparr>calls := calls w @ [c]\<rparr>)
      | b # bs \<Rightarrow> (b, w\<lparr>calls := calls w @ [c], faults := bs\<rparr>))"

text \<open>
  Modelled from the spec: find-by-channel,
  \<^verbatim>\<open>prisma.excelData.findFirst({ where: { channel } })\<close>: the first row of the table with
  that channel, or null.
\<close>

definition findFirst :: "jsnumber \<Rightarrow> world \<Rightarrow> (error + ExcelDataRow option) \<times> world" where
  "findFirst c w =
     (case client_call (FindFirst c) w of
        (failed, w') \<Rightarrow>
          if failed then (Inl (StoreCallFailed (FindFirst c)), w')
          else (Inr (find (\<lambda>x. channel x = c) (table w')), w'))"

text \<open>
  Modelled from the spec: update-by-channel,
  \<^verbatim>\<open>prisma.excelData.update({ where: { channel }, data: { frequency } })\<close>: the frequency
  of the row with that channel (the one find-by-channel finds) is overwritten; the
  call fails when there is no such row.
\<close>

fun overwrite_frequency :: "jsnumber \<Rightarrow> jsnumber \<Rightarrow> ExcelDataRow list \<Rightarrow> ExcelDataRow list" where
  "overwrite_frequency c f [] = []"
| "overwrite_frequency c f (x # xs) =
     (if channel x = c then x\<lparr>frequency := f\<rparr> # xs else x # overwrite_frequency c f xs)"

definition update :: "jsnumber \<Rightarrow> jsnumber \<Rightarrow> world \<Rightarrow> (error + unit) \<times> world" where
  "update c f w =
     (case client_call (Update c f) w of
        (failed, w') \<Rightarrow>
          if failed then (Inl (StoreCallFailed (Update c f)), w')
          else (case find (\<lambda>x. channel x = c) (table w') of
                  None \<Rightarrow> (Inl RecordNotFound, w')
                | Some _ \<Rightarrow> (Inr (), w'\<lparr>table := overwrite_frequency c f (table w')\<rparr>)))"

text \<open>
  Modelled from the spec: create,
  \<^verbatim>\<open>prisma.excelData.create({ data: { channel, frequency } })\<close>: a new row with both
  fields is inserted.
\<close>

definition create :: "jsnumber \<Rightarrow> jsnumber \<Rightarrow> world \<Rightarrow> (error + unit) \<times> world" where
  "create c f w =
     (case client_call (Create c f) w of
        (failed, w') \<Rightarrow>
          if failed then (Inl (StoreCallFailed (Create c f)), w')
          else (Inr (), w'\<lparr>table := table w' @ [\<lparr>channel = c, frequency = f\<rparr>]\<rparr>))"

text \<open>Modelled from the spec: find-all, \<^verbatim>\<open>prisma.excelData.findMany()\<close>: every row.\<close>

definition findMany :: "world \<Rightarrow> (error + ExcelDataRow list) \<times> world" where
  "findMany w =
     (case client_call FindMany w of
        (failed, w') \<Rightarrow>
          if failed then (Inl (StoreCallFailed FindMany), w') else (Inr (table w'), w'))"

text \<open>
  Modelled from the spec: the connection is acquired with the client
  (\<^verbatim>\<open>new PrismaClient()\<close>) and released by \<^verbatim>\<open>prisma.$disconnect()\<close>, a call of the
  client like the others.
\<close>

definition new_PrismaClient :: "world \<Rightarrow> world" where
  "new_PrismaClient w = w\<lparr>connected := True\<rparr>"

definition disconnect :: "world \<Rightarrow> (error + unit) \<times> world" where
  "disconnect w =
     (case client_call Disconnect w of
        (failed, w') \<Rightarrow>
          if failed then (Inl (StoreCallFailed Disconnect), w')
          else (Inr (), w'\<lparr>connected := False\<rparr>))"

section \<open>The synchronizer, the reporter and main\<close>

text \<open>
  \<open>upload_record\<close> is the body of the \<^verbatim>\<open>for\<close> loop of \<^verbatim>\<open>uploadData\<close> for one record,
  \<open>uploadData_loop\<close> the loop (an \<open>await\<close> that rejects leaves it), \<open>uploadData\<close>
  the function with its \<^verbatim>\<open>try\<close> and \<^verbatim>\<open>catch\<close>.
\<close>

definition upload_record :: "ExcelDataRow \<Rightarrow> world \<Rightarrow> (error + unit) \<times> world" where
  "upload_record r w =
     (case findFirst (channel r) w of
        (Inl e, w') \<Rightarrow> (Inl e, w')
      | (Inr existingRecord, w') \<Rightarrow>
          (case existingRecord of
             Some _ \<Rightarrow> update (channel r) (frequency r) w'
           | None \<Rightarrow> create (channel r) (frequency r) w'))"

fun uploadData_loop :: "ExcelDataRow list \<Rightarrow> world \<Rightarrow> (error + unit) \<times> world" where
  "uploadData_loop [] w = (Inr (), w)"
| "uploadData_loop (r # rs) w =
     (case upload_record r w of
        (Inl e, w') \<Rightarrow> (Inl e, w')
      | (Inr _, w') \<Rightarrow> uploadData_loop rs w')"

definition uploadData :: "ExcelDataRow list \<Rightarrow> world \<Rightarrow> (error + unit) \<times> world" where
  "uploadData excelData w =
     (case uploadData_loop excelData w of
        (Inl e, w') \<Rightarrow> (Inr (), console_write (Err_UpdatingData e) w')
      | (Inr _, w') \<Rightarrow> (Inr (), console_write Log_DataUploaded w'))"

definition fetchData :: "world \<Rightarrow> (error + unit) \<times> world" where
  "fetchData w =
     (case findMany w of
        (Inl e, w') \<Rightarrow> (Inr (), console_write (Err_FetchingData e) w')
      | (Inr d, w') \<Rightarrow> (Inr (), console_write (Log_FetchedData d) w'))"

text \<open>
  \<open>main_try\<close> is the \<^verbatim>\<open>try\<close> block of \<^verbatim>\<open>main\<close>, \<open>main_try_catch\<close> adds the
  \<^verbatim>\<open>catch\<close>, and \<open>main\<close> creates the client before and runs the \<^verbatim>\<open>finally\<close> block
  after: when \<^verbatim>\<open>$disconnect\<close> rejects, that is the outcome of \<^verbatim>\<open>main\<close>, otherwise
  the outcome of the \<^verbatim>\<open>try\<close> and \<^verbatim>\<open>catch\<close> is.
\<close>

definition main_try :: "runtime \<Rightarrow> world \<Rightarrow> (error + unit) \<times> world" where
  "main_try rt w =
     (case readExcelFile rt ''D:/ExcelToTable.xlsx'' w of
        (Inl e, w1) \<Rightarrow> (Inl e, w1)
      | (Inr excelData, w1) \<Rightarrow>
          (case uploadData excelData w1 of
             (Inl e, w2) \<Rightarrow> (Inl e, w2)
           | (Inr _, w2) \<Rightarrow>
               (case fetchData w2 of
                  (Inl e, w3) \<Rightarrow> (Inl e, w3)
                | (Inr _, w3) \<Rightarrow> (Inr (), console_write Log_Completed w3))))"

definition main_try_catch :: "runtime \<Rightarrow> world \<Rightarrow> (error + unit) \<times> world" where
  "main_try_catch rt w =
     (case main_try rt w of
        (Inl e, w') \<Rightarrow> (Inr (), console_write (Err_Main e) w')
      | (Inr u, w') \<Rightarrow> (Inr u, w'))"

definition main :: "runtime \<Rightarrow> world \<Rightarrow> (error + unit) \<times> world" where
  "main rt w =
     (case main_try_catch rt (new_PrismaClient w) of
        (outcome, w') \<Rightarrow>
          (case disconnect w' of
             (Inl e, w'') \<Rightarrow> (Inl e, w'')
           | (Inr _, w'') \<Rightarrow> (outcome, w'')))"

section \<open>The synchronizer's contract, in the spec's words\<close>

text \<open>
  The contract of the synchronizer on the table alone: for a record, if a row with
  the same channel is found, its frequency is overwritten; if not, a new row with
  both fields is inserted. \<open>upsert_calls\<close> is the store traffic of one record:
  the query, then the update or the insertion. \<open>sync_calls\<close> is the traffic of a
  sequence of records, one record at a time in order.
\<close>

definition has_channel :: "ExcelDataRow list \<Rightarrow> jsnumber \<Rightarrow> bool" where
  "has_channel t c = (c \<in> channel ` set t)"

definition upsert :: "ExcelDataRow list \<Rightarrow> ExcelDataRow \<Rightarrow> ExcelDataRow list" where
  "upsert t r =
     (if has_channel t (channel r)
      then overwrite_frequency (channel r) (frequency r) t
      else t @ [\<lparr>channel = channel r, frequency = frequency r\<rparr>])"

definition upsert_calls :: "ExcelDataRow list \<Rightarrow> ExcelDataRow \<Rightarrow> store_call list" where
  "upsert_calls t r =
     [FindFirst (channel r),
      if has_channel t (channel r) then Update (channel r) (frequency r)
      else Create (channel r) (frequency r)]"

fun sync_calls :: "ExcelDataRow list \<Rightarrow> ExcelDataRow list \<Rightarrow> store_call list" where
  "sync_calls t [] = []"
| "sync_calls t (r # rs) = upsert_calls t r @ sync_calls (upsert t r) rs"

text \<open>The invariant of the data model: at most one row for a channel.\<close>

definition unique_channels :: "ExcelDataRow list \<Rightarrow> bool" where
  "unique_channels t = distinct (map channel t)"

text \<open>How many rows of a table have a given channel.\<close>

definition rows_of_channel :: "ExcelDataRow list \<Rightarrow> jsnumber \<Rightarrow> nat" where
  "rows_of_channel t c = length (filter (\<lambda>x. channel x = c) t)"

text \<open>No store call fails from here on.\<close>

definition no_faults :: "world \<Rightarrow> bool" where
  "no_faults w = (True \<notin> set (faults w))"

section \<open>Notions used to state the properties\<close>

text \<open>The row numbers that \<^verbatim>\<open>eachRow\<close> visits on a worksheet whose first entry has
  row number \<open>n\<close>.\<close>

fun row_numbers_from :: "worksheet \<Rightarrow> nat \<Rightarrow> nat list" where
  "row_numbers_from [] n = []"
| "row_numbers_from (None # rs) n = row_numbers_from rs (Suc n)"
| "row_numbers_from (Some r # rs) n = n # row_numbers_from rs (Suc n)"

text \<open>A channel cell of the intended format: the marker followed by one or more
  decimal digits.\<close>

definition marker_then_digits :: "cell_value \<Rightarrow> bool" where
  "marker_then_digits v =
     (case v of
        StringValue (c # ds) \<Rightarrow> c = alef \<and> ds \<noteq> [] \<and> list_all is_digit ds
      | _ \<Rightarrow> False)"

section \<open>Example inputs\<close>

text \<open>
  The sheet of the spec's end-to-end scenario with the rows that carry a channel
  label: (alef 7, 101.5), (alef 7, 102), no third row, (alef 9, empty).
\<close>

definition row_A7_first :: row where
  "row_A7_first =
     \<lparr>cell1 = \<lparr>cvalue = StringValue [alef, 0x37], ctype = String, ctext = [alef, 0x37]\<rparr>,
      cell2 = \<lparr>cvalue = NumberValue (Finite (203 / 2)), ctype = Number,
               ctext = [0x31, 0x30, 0x31, 0x2E, 0x35]\<rparr>\<rparr>"

definition row_A7_second :: row where
  "row_A7_second =
     \<lparr>cell1 = \<lparr>cvalue = StringValue [alef, 0x37], ctype = String, ctext = [alef, 0x37]\<rparr>,
      cell2 = \<lparr>cvalue = NumberValue (Finite 102), ctype = Number,
               ctext = [0x31, 0x30, 0x32]\<rparr>\<rparr>"

definition row_A9_empty :: row where
  "row_A9_empty =
     \<lparr>cell1 = \<lparr>cvalue = StringValue [alef, 0x39], ctype = String, ctext = [alef, 0x39]\<rparr>,
      cell2 = \<lparr>cvalue = NullValue, ctype = Null, ctext = []\<rparr>\<rparr>"

definition example_sheet :: worksheet where
  "example_sheet = [Some row_A7_first, Some row_A7_second, None, Some row_A9_empty]"

definition example_workbook :: workbook where
  "example_workbook = (\<lambda>n. if n = 1 then Some example_sheet else None)"

definition empty_workbook :: workbook where
  "empty_workbook = (\<lambda>n. None)"

text \<open>A runtime that parses the strings of the example, with the example workbook at
  the path that \<^verbatim>\<open>main\<close> reads, a workbook with no sheet at another path, and no
  readable file elsewhere.\<close>

definition example_runtime :: runtime where
  "example_runtime =
     \<lparr>parseInt = (\<lambda>s. if s = [0x37] then Finite 7 else if s = [0x39] then Finite 9 else NaN),
      parseFloat = (\<lambda>s. if s = [0x31, 0x30, 0x31, 0x2E, 0x35] then Finite (203 / 2)
                         else if s = [0x31, 0x30, 0x32] then Finite 102 else NaN),
      readFile = (\<lambda>p. if p = ''D:/ExcelToTable.xlsx'' then Inr example_workbook
                       else if p = ''D:/NoSheet.xlsx'' then Inr empty_workbook
                       else Inl ReadFileFailed)\<rparr>"

definition empty_world :: world where
  "empty_world = \<lparr>console = [], table = [], faults = [], calls = [], connected = False\<rparr>"

text \<open>
  The records of the spec's end-to-end scenario, followed by one for channel 9, and a
  store that holds a row for channel 9 already. \<open>faulty_world\<close> is that store with
  a schedule in which the fourth call fails, which is the update for the second
  record; \<open>after_first_record\<close> and \<open>at_failure\<close> are the states it goes through.
  In \<open>failing_report_world\<close> the first call fails.
\<close>

definition example_records :: "ExcelDataRow list" where
  "example_records =
     [\<lparr>channel = Finite 7, frequency = Finite (203 / 2)\<rparr>,
      \<lparr>channel = Finite 7, frequency = Finite 102\<rparr>,
      \<lparr>channel = Finite 9, frequency = Finite 5\<rparr>]"

definition stocked_world :: world where
  "stocked_world =
     \<lparr>console = [], table = [\<lparr>channel = Finite 9, frequency = Finite 1\<rparr>], faults = [],
      calls = [], connected = True\<rparr>"

definition faulty_world :: world where
  "faulty_world =
     \<lparr>console = [], table = [\<lparr>channel = Finite 9, frequency = Finite 1\<rparr>],
      faults = [False, False, False, True], calls = [], connected = True\<rparr>"

definition after_first_record :: world where
  "after_first_record =
     \<lparr>console = [],
      table = [\<lparr>channel = Finite 9, frequency = Finite 1\<rparr>,
               \<lparr>channel = Finite 7, frequency = Finite (203 / 2)\<rparr>],
      faults = [False, True],
      calls = [FindFirst (Finite 7), Create (Finite 7) (Finite (203 / 2))],
      connected = True\<rparr>"

definition at_failure :: world where
  "at_failure =
     \<lparr>console = [],
      table = [\<lparr>channel = Finite 9, frequency = Finite 1\<rparr>,
               \<lparr>channel = Finite 7, frequency = Finite (203 / 2)\<rparr>],
      faults = [],
      calls = [FindFirst (Finite 7), Create (Finite 7) (Finite (203 / 2)),
               FindFirst (Finite 7), Update (Finite 7) (Finite 102)],
      connected = True\<rparr>"

definition failing_report_world :: world where
  "failing_report_world =
     \<lparr>console = [], table = [], faults = [True], calls = [], connected = False\<rparr>"

section \<open>The extractor: properties\<close>

lemma isValidChannelFormat_loop_False: "\<not> isValidChannelFormat_loop s b"
  by (induction s arbitrary: b) auto

lemma isValidChannelFormat_False: "\<not> isValidChannelFormat s"
  by (simp add: isValidChannelFormat_def isValidChannelFormat_loop_False)

lemma invalid_channel_True: "invalid_channel v"
  by (simp add: invalid_channel_def isValidChannelFormat_False split: cell_value.splits)

lemma row_callback_eq:
  "row_callback rt r n st = (fst st, console_write (Err_InvalidChannel n) (snd st))"
  by (simp add: row_callback_def invalid_channel_True)

lemma eachRow_from_callback:
  "eachRow_from (row_callback rt) ws n (d, w) =
     (d, w\<lparr>console := console w @ map Err_InvalidChannel (row_numbers_from ws n)\<rparr>)"
proof (induction ws n arbitrary: w rule: row_numbers_from.induct)
  case (1 n)
  show ?case by simp
next
  case (2 rs n)
  then show ?case by simp
next
  case (3 r rs n)
  then show ?case by (simp add: row_callback_eq console_write_def)
qed

lemma readExcelFile_sheet:
  assumes "readFile rt path = Inr wb" and "wb 1 = Some ws"
  shows "readExcelFile rt path w =
           (Inr [], w\<lparr>console := console w @ map Err_InvalidChannel (row_numbers_from ws 1)\<rparr>)"
  using assms
  by (simp add: readExcelFile_def readExcelFile_try_def eachRow_def eachRow_from_callback)

lemma readExcelFile_no_file:
  assumes "readFile rt path = Inl e"
  shows "readExcelFile rt path w = (Inr [], console_write (Err_ReadingFile e) w)"
  using assms by (simp add: readExcelFile_def readExcelFile_try_def)

lemma readExcelFile_no_sheet:
  assumes "readFile rt path = Inr wb" and "wb 1 = None"
  shows "readExcelFile rt path w = (Inr [], console_write Err_WorksheetUndefined w)"
  using assms by (simp add: readExcelFile_def readExcelFile_try_def)

lemma readExcelFile_empty: "fst (readExcelFile rt path w) = Inr []"
proof (cases "readFile rt path")
  case (Inl e)
  then show ?thesis by (simp add: readExcelFile_no_file)
next
  case (Inr wb)
  then show ?thesis
    by (cases "wb 1") (simp_all add: readExcelFile_no_sheet readExcelFile_sheet)
qed

lemma row_numbers_from_ge: "k \<in> set (row_numbers_from ws n) \<Longrightarrow> n \<le> k"
  by (induction ws n rule: row_numbers_from.induct) auto

lemma count_row_number:
  "i < length ws \<Longrightarrow> ws ! i = Some r \<Longrightarrow>
   length (filter (\<lambda>l. is_error_line l \<and> row_number_of l = Some (n + i))
             (map Err_InvalidChannel (row_numbers_from ws n))) = 1"
proof (induction ws n arbitrary: i rule: row_numbers_from.induct)
  case (1 n)
  then show ?case by simp
next
  case (2 rs n)
  from 2(2,3) obtain j where j: "i = Suc j" by (cases i) auto
  with 2 show ?case by simp
next
  case (3 r' rs n)
  show ?case
  proof (cases i)
    case 0
    have "\<And>k. k \<in> set (row_numbers_from rs (Suc n)) \<Longrightarrow> k \<noteq> n"
      using row_numbers_from_ge by fastforce
    then have "filter (\<lambda>l. is_error_line l \<and> row_number_of l = Some n)
             (map Err_InvalidChannel (row_numbers_from rs (Suc n))) = []"
      by (auto simp: filter_empty_conv)
    with 0 show ?thesis by simp
  next
    case (Suc j)
    with 3 show ?thesis by simp
  qed
qed

text \<open>
  Claim C1. For every string in which the marker is followed by at least one further
  code unit, of any kind, \<open>isValidChannelFormat\<close> returns false; and for every
  worksheet in which the first cell of each row is the marker followed by digits,
  \<open>readExcelFile\<close> extracts the empty sequence.
\<close>

theorem marker_followed_by_anything_is_rejected:
  "(\<forall>pre post. post \<noteq> [] \<longrightarrow> \<not> isValidChannelFormat (pre @ alef # post)) \<and>
   (\<forall>rt path wb ws w.
      readFile rt path = Inr wb \<longrightarrow> wb 1 = Some ws \<longrightarrow>
      (\<forall>r. Some r \<in> set ws \<longrightarrow> marker_then_digits (cvalue (cell1 r))) \<longrightarrow>
      fst (readExcelFile rt path w) = Inr [])"
  by (simp add: isValidChannelFormat_False readExcelFile_empty)

theorem marker_followed_by_anything_is_rejected_witness:
  "[0x37, 0x32] \<noteq> ([] :: jsstring) \<and> \<not> isValidChannelFormat ([] @ alef # [0x37, 0x32]) \<and>
   readFile example_runtime ''D:/ExcelToTable.xlsx'' = Inr example_workbook \<and>
   example_workbook 1 = Some example_sheet \<and>
   marker_then_digits (cvalue (cell1 row_A7_first)) \<and>
   marker_then_digits (cvalue (cell1 row_A7_second)) \<and>
   marker_then_digits (cvalue (cell1 row_A9_empty)) \<and>
   fst (readExcelFile example_runtime ''D:/ExcelToTable.xlsx'' empty_world) = Inr []"
proof -
  have a: "[0x37, 0x32] \<noteq> ([] :: jsstring)" by simp
  have b: "readFile example_runtime ''D:/ExcelToTable.xlsx'' = Inr example_workbook"
    by (simp add: example_runtime_def)
  have c: "example_workbook 1 = Some example_sheet"
    by (simp add: example_workbook_def)
  have d: "marker_then_digits (cvalue (cell1 row_A7_first))"
    "marker_then_digits (cvalue (cell1 row_A7_second))"
    "marker_then_digits (cvalue (cell1 row_A9_empty))"
    by (simp_all add: marker_then_digits_def is_digit_def row_A7_first_def
        row_A7_second_def row_A9_empty_def)
  have e: "\<forall>r. Some r \<in> set example_sheet \<longrightarrow> marker_then_digits (cvalue (cell1 r))"
    using d by (auto simp: example_sheet_def)
  note rejected = marker_followed_by_anything_is_rejected
  from rejected have "\<not> isValidChannelFormat ([] @ alef # [0x37, 0x32])"
    using a by blast
  moreover from rejected b c e
  have "fst (readExcelFile example_runtime ''D:/ExcelToTable.xlsx'' empty_world) = Inr []"
    by blast
  ultimately show ?thesis using a b c d by simp
qed

text \<open>
  Claim C6. If the workbook file cannot be read, or the first worksheet is absent,
  \<open>readExcelFile\<close> returns the empty sequence and logs an error; it does not throw:
  on every input its promise resolves.
\<close>

theorem unreadable_file_or_missing_sheet_gives_empty:
  "(readFile rt path = Inl e \<longrightarrow>
      readExcelFile rt path w = (Inr [], console_write (Err_ReadingFile e) w) \<and>
      is_error_line (Err_ReadingFile e)) \<and>
   (readFile rt path = Inr wb \<and> wb 1 = None \<longrightarrow>
      readExcelFile rt path w = (Inr [], console_write Err_WorksheetUndefined w) \<and>
      is_error_line Err_WorksheetUndefined) \<and>
   (\<exists>excelData. fst (readExcelFile rt path w) = Inr excelData)"
  by (simp add: readExcelFile_no_file readExcelFile_no_sheet readExcelFile_empty)

theorem unreadable_file_or_missing_sheet_gives_empty_witness:
  "readFile example_runtime ''D:/Missing.xlsx'' = Inl ReadFileFailed \<and>
   readExcelFile example_runtime ''D:/Missing.xlsx'' empty_world =
     (Inr [], console_write (Err_ReadingFile ReadFileFailed) empty_world) \<and>
   readFile example_runtime ''D:/NoSheet.xlsx'' = Inr empty_workbook \<and>
   empty_workbook 1 = None \<and>
   readExcelFile example_runtime ''D:/NoSheet.xlsx'' empty_world =
     (Inr [], console_write Err_WorksheetUndefined empty_world)"
proof -
  have a: "readFile example_runtime ''D:/Missing.xlsx'' = Inl ReadFileFailed"
    by (simp add: example_runtime_def)
  have b: "readFile example_runtime ''D:/NoSheet.xlsx'' = Inr empty_workbook \<and>
           empty_workbook 1 = None"
    by (simp add: example_runtime_def empty_workbook_def)
  from a
    unreadable_file_or_missing_sheet_gives_empty
      [of example_runtime "''D:/Missing.xlsx''" ReadFileFailed empty_world empty_workbook]
  have "readExcelFile example_runtime ''D:/Missing.xlsx'' empty_world =
     (Inr [], console_write (Err_ReadingFile ReadFileFailed) empty_world)"
    by blast
  moreover from b
    unreadable_file_or_missing_sheet_gives_empty
      [of example_runtime "''D:/NoSheet.xlsx''" ReadFileFailed empty_world empty_workbook]
  have "readExcelFile example_runtime ''D:/NoSheet.xlsx'' empty_world =
     (Inr [], console_write Err_WorksheetUndefined empty_world)"
    by blast
  ultimately show ?thesis using a b by simp
qed

text \<open>
  Claim C7. A row whose frequency cell has the empty (Null) cell type is excluded
  from the extracted sequence, and exactly one error is logged that names the row's
  1-based row number. This holds for the part of the callback that handles the
  frequency cell, for the callback as a whole, and for a whole run of
  \<open>readExcelFile\<close> on a sheet that has such a row at position \<open>i\<close> (row number
  \<open>i + 1\<close>).
\<close>

theorem empty_frequency_row_is_skipped_with_one_error:
  assumes "ctype (cell2 r) = Null"
  shows
    "row_frequency rt r n s (d, w) = (d, console_write (Err_EmptyFrequency n) w) \<and>
     (\<exists>l. row_callback rt r n (d, w) = (d, console_write l w) \<and>
          is_error_line l \<and> row_number_of l = Some n) \<and>
     (readFile rt path = Inr wb \<and> wb 1 = Some ws \<and> i < length ws \<and> ws ! i = Some r \<longrightarrow>
        (\<exists>ls. readExcelFile rt path w = (Inr [], w\<lparr>console := console w @ ls\<rparr>) \<and>
              length (filter (\<lambda>l. is_error_line l \<and> row_number_of l = Some (i + 1)) ls) = 1))"
proof (intro conjI impI)
  show "row_frequency rt r n s (d, w) = (d, console_write (Err_EmptyFrequency n) w)"
    using assms by (simp add: row_frequency_def)
  show "\<exists>l. row_callback rt r n (d, w) = (d, console_write l w) \<and>
          is_error_line l \<and> row_number_of l = Some n"
    by (rule exI [of _ "Err_InvalidChannel n"]) (simp add: row_callback_eq)
next
  assume h: "readFile rt path = Inr wb \<and> wb 1 = Some ws \<and> i < length ws \<and> ws ! i = Some r"
  then have "readExcelFile rt path w =
      (Inr [], w\<lparr>console := console w @ map Err_InvalidChannel (row_numbers_from ws 1)\<rparr>)"
    by (simp add: readExcelFile_sheet)
  moreover from h have "length (filter (\<lambda>l. is_error_line l \<and> row_number_of l = Some (i + 1))
        (map Err_InvalidChannel (row_numbers_from ws 1))) = 1"
    using count_row_number [of i ws r 1] by (simp add: add.commute)
  ultimately show "\<exists>ls. readExcelFile rt path w = (Inr [], w\<lparr>console := console w @ ls\<rparr>) \<and>
      length (filter (\<lambda>l. is_error_line l \<and> row_number_of l = Some (i + 1)) ls) = 1"
    by blast
qed

theorem empty_frequency_row_is_skipped_with_one_error_witness:
  "ctype (cell2 row_A9_empty) = Null \<and>
   row_frequency example_runtime row_A9_empty 4 [alef, 0x39] ([], empty_world) =
     ([], console_write (Err_EmptyFrequency 4) empty_world) \<and>
   (\<exists>l. row_callback example_runtime row_A9_empty 4 ([], empty_world) =
          ([], console_write l empty_world) \<and> is_error_line l \<and> row_number_of l = Some 4) \<and>
   readFile example_runtime ''D:/ExcelToTable.xlsx'' = Inr example_workbook \<and>
   example_workbook 1 = Some example_sheet \<and> 3 < length example_sheet \<and>
   example_sheet ! 3 = Some row_A9_empty \<and>
   (\<exists>ls. readExcelFile example_runtime ''D:/ExcelToTable.xlsx'' empty_world =
            (Inr [], empty_world\<lparr>console := console empty_world @ ls\<rparr>) \<and>
         length (filter (\<lambda>l. is_error_line l \<and> row_number_of l = Some (3 + 1)) ls) = 1)"
proof -
  have a: "ctype (cell2 row_A9_empty) = Null"
    by (simp add: row_A9_empty_def)
  have b: "readFile example_runtime ''D:/ExcelToTable.xlsx'' = Inr example_workbook \<and>
     example_workbook 1 = Some example_sheet \<and> 3 < length example_sheet \<and>
     example_sheet ! 3 = Some row_A9_empty"
    by (simp add: example_runtime_def example_workbook_def example_sheet_def)
  from empty_frequency_row_is_skipped_with_one_error
    [OF a, of example_runtime 4 "[alef, 0x39]" "[]" empty_world
       "''D:/ExcelToTable.xlsx''" example_workbook example_sheet 3] a b
  show ?thesis by blast
qed

text \<open>
  Claim C8. The acceptance test on the parsed frequency,
  \<^verbatim>\<open>!isNaN(f) && (Number.isInteger(f) || !Number.isNaN(f))\<close>, is equivalent to
  \<^verbatim>\<open>!isNaN(f)\<close>: the frequency part of the callback appends a record to the extracted
  sequence exactly when the parsed value is not NaN, whether it is finite or infinite,
  and otherwise appends nothing.
\<close>

theorem frequency_test_is_not_NaN:
  "frequency_accepted f = (\<not> isNaN f) \<and>
   frequency_accepted PosInfinity \<and> frequency_accepted NegInfinity \<and>
   frequency_accepted (Finite q) \<and> \<not> frequency_accepted NaN \<and>
   (ctype (cell2 r) \<noteq> Null \<longrightarrow>
      fst (row_frequency rt r n s (d, w)) =
        (if \<not> isNaN (parseFloat rt (ctext (cell2 r)))
         then d @ [\<lparr>channel = parseInt rt (substring s (indexOf s alef + 1)),
                    frequency = parseFloat rt (ctext (cell2 r))\<rparr>]
         else d))"
proof -
  have eq: "\<And>x. frequency_accepted x = (\<not> isNaN x)"
    by (auto simp: frequency_accepted_def isNaN_def Number_isNaN_def split: jsnumber.splits)
  show ?thesis
    by (simp add: eq row_frequency_def Let_def) (simp add: isNaN_def)
qed

theorem frequency_test_is_not_NaN_witness:
  "frequency_accepted (Finite (203 / 2)) = (\<not> isNaN (Finite (203 / 2))) \<and>
   ctype (cell2 row_A7_first) \<noteq> Null \<and>
   fst (row_frequency example_runtime row_A7_first 1 [alef, 0x37] ([], empty_world)) =
     [\<lparr>channel = Finite 7, frequency = Finite (203 / 2)\<rparr>]"
proof -
  have a: "ctype (cell2 row_A7_first) \<noteq> Null"
    by (simp add: row_A7_first_def)
  have b: "parseFloat example_runtime (ctext (cell2 row_A7_first)) = Finite (203 / 2)"
    by (simp add: example_runtime_def row_A7_first_def)
  have c: "parseInt example_runtime (substring [alef, 0x37] (indexOf [alef, 0x37] alef + 1))
             = Finite 7"
    by (simp add: example_runtime_def substring_def indexOf_def)
  from frequency_test_is_not_NaN
    [of "Finite (203 / 2)" "203 / 2" row_A7_first example_runtime 1 "[alef, 0x37]" "[]"
       empty_world] a b c
  show ?thesis by (simp add: isNaN_def)
qed

section \<open>The synchronizer: properties\<close>

subsection \<open>The contract on a table\<close>

lemma find_channel_None: "(find (\<lambda>x. channel x = c) t = None) = (\<not> has_channel t c)"
  by (auto simp: find_None_iff has_channel_def)

lemma map_channel_overwrite: "map channel (overwrite_frequency c f t) = map channel t"
  by (induction t) auto

lemma find_Some_has_channel: "find (\<lambda>x. channel x = c) t = Some x \<Longrightarrow> has_channel t c"
  using find_channel_None [of c t] by simp

lemma find_append_channel:
  "find P (xs @ ys) = (case find P xs of None \<Rightarrow> find P ys | Some x \<Rightarrow> Some x)"
  by (induction xs) auto

lemma has_channel_overwrite: "has_channel (overwrite_frequency c f t) c' = has_channel t c'"
proof -
  have "set (map channel (overwrite_frequency c f t)) = set (map channel t)"
    by (simp only: map_channel_overwrite)
  then show ?thesis by (simp add: has_channel_def)
qed

lemma has_channel_upsert: "has_channel (upsert t r) c = (c = channel r \<or> has_channel t c)"
  by (auto simp: upsert_def has_channel_overwrite) (auto simp: has_channel_def)

lemma unique_channels_upsert: "unique_channels t \<Longrightarrow> unique_channels (upsert t r)"
  by (auto simp: unique_channels_def upsert_def map_channel_overwrite has_channel_def)

lemma find_overwrite_same:
  "has_channel t c \<Longrightarrow>
   find (\<lambda>x. channel x = c) (overwrite_frequency c f t) =
     Some ((the (find (\<lambda>x. channel x = c) t))\<lparr>frequency := f\<rparr>)"
  by (induction t) (auto simp: has_channel_def)

lemma find_overwrite_other:
  "c' \<noteq> c \<Longrightarrow>
   find (\<lambda>x. channel x = c') (overwrite_frequency c f t) = find (\<lambda>x. channel x = c') t"
  by (induction t) auto

lemma find_upsert_same: "find (\<lambda>x. channel x = channel r) (upsert t r) = Some r"
proof (cases "has_channel t (channel r)")
  case True
  then obtain x where x: "find (\<lambda>x. channel x = channel r) t = Some x"
    using find_channel_None [of "channel r" t] by (cases "find (\<lambda>x. channel x = channel r) t") auto
  then have "channel x = channel r" by (auto dest: find_Some_iff [THEN iffD1])
  then have "x\<lparr>frequency := frequency r\<rparr> = r" by simp
  with True x show ?thesis by (simp add: upsert_def find_overwrite_same)
next
  case False
  then have "find (\<lambda>x. channel x = channel r) t = None" by (simp add: find_channel_None)
  with False show ?thesis by (simp add: upsert_def find_append_channel)
qed

lemma find_upsert_other:
  "c \<noteq> channel r \<Longrightarrow> find (\<lambda>x. channel x = c) (upsert t r) = find (\<lambda>x. channel x = c) t"
  by (auto simp: upsert_def find_overwrite_other find_append_channel split: option.splits)

lemma filter_overwrite_other:
  "filter (\<lambda>x. channel x \<noteq> c) (overwrite_frequency c f t) = filter (\<lambda>x. channel x \<noteq> c) t"
  by (induction t) auto

lemma filter_upsert_other:
  "filter (\<lambda>x. channel x \<noteq> channel r) (upsert t r) = filter (\<lambda>x. channel x \<noteq> channel r) t"
  by (simp add: upsert_def filter_overwrite_other)

lemma length_overwrite: "length (overwrite_frequency c f t) = length t"
  by (induction t) auto

lemma length_upsert:
  "length (upsert t r) = (if has_channel t (channel r) then length t else Suc (length t))"
  by (simp add: upsert_def length_overwrite)

subsection \<open>One record, then the loop\<close>

lemma upload_record_Inr:
  assumes "upload_record r w = (Inr u, w')"
  shows "table w' = upsert (table w) r \<and> calls w' = calls w @ upsert_calls (table w) r \<and>
         faults w' = drop 2 (faults w) \<and> console w' = console w \<and>
         connected w' = connected w"
proof (cases "has_channel (table w) (channel r)")
  case True
  then obtain x where "find (\<lambda>x. channel x = channel r) (table w) = Some x"
    using find_channel_None [of "channel r" "table w"] by auto
  with True assms show ?thesis
    by (cases "faults w"; cases "tl (faults w)")
       (auto simp: upload_record_def findFirst_def update_def client_call_def
          upsert_def upsert_calls_def split: if_splits)
next
  case False
  then have "find (\<lambda>x. channel x = channel r) (table w) = None"
    by (simp add: find_channel_None)
  with False assms show ?thesis
    by (cases "faults w"; cases "tl (faults w)")
       (auto simp: upload_record_def findFirst_def create_def client_call_def
          upsert_def upsert_calls_def split: if_splits)
qed

lemma upload_record_Inl:
  assumes "upload_record r w = (Inl e, w')"
  shows "table w' = table w \<and> console w' = console w \<and> connected w' = connected w \<and>
         (calls w' = calls w @ [FindFirst (channel r)] \<and>
            e = StoreCallFailed (FindFirst (channel r))
          \<or> calls w' = calls w @ upsert_calls (table w) r \<and>
            e = StoreCallFailed (last (upsert_calls (table w) r)))"
proof (cases "has_channel (table w) (channel r)")
  case True
  then obtain x where "find (\<lambda>x. channel x = channel r) (table w) = Some x"
    using find_channel_None [of "channel r" "table w"] by auto
  with True assms show ?thesis
    by (cases "faults w"; cases "tl (faults w)")
       (auto simp: upload_record_def findFirst_def update_def client_call_def
          upsert_def upsert_calls_def split: if_splits)
next
  case False
  then have "find (\<lambda>x. channel x = channel r) (table w) = None"
    by (simp add: find_channel_None)
  with False assms show ?thesis
    by (cases "faults w"; cases "tl (faults w)")
       (auto simp: upload_record_def findFirst_def create_def client_call_def
          upsert_def upsert_calls_def split: if_splits)
qed

lemma upload_record_no_faults:
  assumes "no_faults w"
  shows "\<exists>w'. upload_record r w = (Inr (), w') \<and> no_faults w'"
  using assms
  by (cases "faults w"; cases "tl (faults w)")
     (auto simp: upload_record_def findFirst_def update_def create_def client_call_def no_faults_def
        split: if_splits option.splits list.splits)

lemma uploadData_loop_console: "console (snd (uploadData_loop rs w)) = console w"
proof (induction rs arbitrary: w)
  case Nil
  show ?case by simp
next
  case (Cons r rs)
  obtain res w1 where u: "upload_record r w = (res, w1)" by (cases "upload_record r w")
  show ?case
  proof (cases res)
    case (Inl e)
    with u show ?thesis using upload_record_Inl [of r w e w1] by simp
  next
    case (Inr v)
    with u show ?thesis using upload_record_Inr [of r w v w1] Cons.IH [of w1] by simp
  qed
qed

lemma uploadData_loop_connected: "connected (snd (uploadData_loop rs w)) = connected w"
proof (induction rs arbitrary: w)
  case Nil
  show ?case by simp
next
  case (Cons r rs)
  obtain res w1 where u: "upload_record r w = (res, w1)" by (cases "upload_record r w")
  show ?case
  proof (cases res)
    case (Inl e)
    with u show ?thesis using upload_record_Inl [of r w e w1] by simp
  next
    case (Inr v)
    with u show ?thesis using upload_record_Inr [of r w v w1] Cons.IH [of w1] by simp
  qed
qed

lemma uploadData_loop_Inr:
  "uploadData_loop rs w = (Inr u, w') \<Longrightarrow>
   table w' = foldl upsert (table w) rs \<and> calls w' = calls w @ sync_calls (table w) rs \<and>
   faults w' = drop (2 * length rs) (faults w)"
proof (induction rs arbitrary: w)
  case Nil
  then show ?case by simp
next
  case (Cons r rs)
  obtain res w1 where u: "upload_record r w = (res, w1)" by (cases "upload_record r w")
  show ?case
  proof (cases res)
    case (Inl e)
    with u Cons.prems show ?thesis by simp
  next
    case (Inr v)
    with u Cons.prems have "uploadData_loop rs w1 = (Inr u, w')" by simp
    from Cons.IH [OF this] upload_record_Inr [of r w v w1] u Inr
    show ?thesis by (simp add: add.commute)
  qed
qed

lemma uploadData_loop_no_faults:
  "no_faults w \<Longrightarrow> \<exists>w'. uploadData_loop rs w = (Inr (), w') \<and> no_faults w'"
proof (induction rs arbitrary: w)
  case Nil
  then show ?case by simp
next
  case (Cons r rs)
  from upload_record_no_faults [OF Cons.prems, of r]
  obtain w1 where w1: "upload_record r w = (Inr (), w1)" "no_faults w1" by blast
  from Cons.IH [OF w1(2)] w1(1) show ?case by simp
qed

lemma uploadData_loop_append:
  "uploadData_loop pre w = (Inr u, w1) \<Longrightarrow>
   uploadData_loop (pre @ rs) w = uploadData_loop rs w1"
proof (induction pre arbitrary: w)
  case Nil
  then show ?case by simp
next
  case (Cons r pre)
  obtain res w2 where u: "upload_record r w = (res, w2)" by (cases "upload_record r w")
  with Cons show ?case by (cases res) auto
qed

lemma uploadData_loop_unique:
  "unique_channels (table w) \<Longrightarrow> unique_channels (table (snd (uploadData_loop rs w)))"
proof (induction rs arbitrary: w)
  case Nil
  then show ?case by simp
next
  case (Cons r rs)
  obtain res w1 where u: "upload_record r w = (res, w1)" by (cases "upload_record r w")
  show ?case
  proof (cases res)
    case (Inl e)
    with u Cons.prems show ?thesis using upload_record_Inl [of r w e w1] by simp
  next
    case (Inr v)
    with u have "table w1 = upsert (table w) r" using upload_record_Inr [of r w v w1] by simp
    with Cons.prems have "unique_channels (table w1)" by (simp add: unique_channels_upsert)
    from Cons.IH [OF this] u Inr show ?thesis by simp
  qed
qed

subsection \<open>A sequence of records, and the same sequence again\<close>

lemma has_channel_member: "r \<in> set rs \<Longrightarrow> has_channel rs (channel r)"
  by (simp add: has_channel_def)

lemma foldl_upsert_unique: "unique_channels t \<Longrightarrow> unique_channels (foldl upsert t rs)"
  by (induction rs arbitrary: t) (simp_all add: unique_channels_upsert)

lemma has_channel_foldl_upsert:
  "has_channel (foldl upsert t rs) c = (has_channel t c \<or> has_channel rs c)"
proof (induction rs arbitrary: t)
  case Nil
  show ?case by (simp add: has_channel_def)
next
  case (Cons r rs)
  have "has_channel (r # rs) c = (c = channel r \<or> has_channel rs c)"
    by (auto simp: has_channel_def)
  with Cons [of "upsert t r"] show ?case by (auto simp: has_channel_upsert)
qed

lemma find_foldl_upsert:
  "find (\<lambda>x. channel x = c) (foldl upsert t rs) =
     (if has_channel rs c then Some (last (filter (\<lambda>x. channel x = c) rs))
      else find (\<lambda>x. channel x = c) t)"
proof (induction rs rule: rev_induct)
  case Nil
  show ?case by (simp add: has_channel_def)
next
  case (snoc r rs)
  show ?case
  proof (cases "c = channel r")
    case True
    then show ?thesis by (simp add: find_upsert_same has_channel_def)
  next
    case False
    then have "has_channel (rs @ [r]) c = has_channel rs c"
      by (auto simp: has_channel_def)
    with False snoc show ?thesis by (simp add: find_upsert_other)
  qed
qed

lemma present_channels_only_updated:
  "(\<forall>r\<in>set rs. has_channel t (channel r)) \<Longrightarrow>
   map channel (foldl upsert t rs) = map channel t \<and>
   sync_calls t rs =
     concat (map (\<lambda>r. [FindFirst (channel r), Update (channel r) (frequency r)]) rs)"
proof (induction rs arbitrary: t)
  case Nil
  show ?case by simp
next
  case (Cons r rs)
  then have r: "has_channel t (channel r)" by simp
  then have m: "map channel (upsert t r) = map channel t"
    by (simp add: upsert_def map_channel_overwrite)
  from Cons.prems have "\<forall>x\<in>set rs. has_channel (upsert t r) (channel x)"
    by (simp add: has_channel_upsert)
  from Cons.IH [OF this] r m show ?case by (simp add: upsert_calls_def)
qed

lemma table_determined_by_find:
  "unique_channels t \<Longrightarrow> map channel t = map channel t' \<Longrightarrow>
   (\<And>c. find (\<lambda>x. channel x = c) t = find (\<lambda>x. channel x = c) t') \<Longrightarrow> t = t'"
proof (induction t arbitrary: t')
  case Nil
  then show ?case by simp
next
  case (Cons x xs)
  from Cons.prems(2) obtain y ys where t': "t' = y # ys" by (cases t') auto
  with Cons.prems(2) have ch: "channel x = channel y" "map channel xs = map channel ys"
    by simp_all
  from Cons.prems(3) [of "channel x"] t' ch have xy: "x = y" by simp
  from Cons.prems(1) have u: "unique_channels xs" "channel x \<notin> set (map channel xs)"
    by (simp_all add: unique_channels_def)
  have "find (\<lambda>z. channel z = c) xs = find (\<lambda>z. channel z = c) ys" for c
  proof (cases "c = channel x")
    case True
    from u(2) have "\<not> has_channel xs c" using True by (simp add: has_channel_def)
    moreover from u(2) ch(2) have "\<not> has_channel ys c" using True
      by (metis has_channel_def set_map)
    ultimately show ?thesis by (simp add: find_channel_None [symmetric])
  next
    case False
    with Cons.prems(3) [of c] t' xy show ?thesis by auto
  qed
  from Cons.IH [OF u(1) ch(2) this] xy t' show ?case by simp
qed

lemma unique_rows_of_channel:
  "unique_channels t \<Longrightarrow> has_channel t c \<Longrightarrow> rows_of_channel t c = 1"
proof (induction t)
  case Nil
  then show ?case by (simp add: has_channel_def)
next
  case (Cons x xs)
  show ?case
  proof (cases "channel x = c")
    case True
    from Cons.prems(1) have "channel x \<notin> channel ` set xs"
      by (simp add: unique_channels_def)
    with True have "\<forall>z\<in>set xs. channel z \<noteq> c" by blast
    then have "filter (\<lambda>z. channel z = c) xs = []"
      by (simp add: filter_empty_conv)
    with True show ?thesis by (simp add: rows_of_channel_def)
  next
    case False
    with Cons show ?thesis
      by (simp add: rows_of_channel_def unique_channels_def has_channel_def)
  qed
qed

lemma foldl_upsert_twice:
  assumes "unique_channels t"
  shows "foldl upsert (foldl upsert t rs) rs = foldl upsert t rs"
proof -
  let ?t1 = "foldl upsert t rs"
  have u1: "unique_channels ?t1" using assms by (rule foldl_upsert_unique)
  have "\<forall>r\<in>set rs. has_channel ?t1 (channel r)"
    by (simp add: has_channel_foldl_upsert has_channel_member)
  then have m: "map channel (foldl upsert ?t1 rs) = map channel ?t1"
    by (simp add: present_channels_only_updated)
  have f: "find (\<lambda>x. channel x = c) ?t1 = find (\<lambda>x. channel x = c) (foldl upsert ?t1 rs)" for c
    by (simp add: find_foldl_upsert [of c ?t1] find_foldl_upsert [of c t])
  from table_determined_by_find [OF u1 m [symmetric] f] show ?thesis by simp
qed

lemma uploadData_no_faults:
  assumes "no_faults w"
  shows "\<exists>w'. uploadData rs w = (Inr (), w') \<and> no_faults w' \<and>
           table w' = foldl upsert (table w) rs \<and>
           calls w' = calls w @ sync_calls (table w) rs \<and>
           console w' = console w @ [Log_DataUploaded] \<and>
           connected w' = connected w"
proof -
  from uploadData_loop_no_faults [OF assms, of rs]
  obtain w1 where w1: "uploadData_loop rs w = (Inr (), w1)" "no_faults w1" by blast
  from uploadData_loop_Inr [OF w1(1)] uploadData_loop_console [of rs w]
    uploadData_loop_connected [of rs w] w1
  show ?thesis by (simp add: uploadData_def console_write_def no_faults_def)
qed


subsection \<open>The claims about the synchronizer\<close>

text \<open>
  Claim C2. When no store call fails, \<open>uploadData\<close> handles the records one at a
  time in sequence order: for each record it queries the store for a row with the
  record's channel; if there is one, its frequency is overwritten with the record's
  frequency, and if there is none, a new row with both fields is inserted.
\<close>

theorem uploadData_upserts_each_record_in_order:
  assumes "no_faults w"
  shows "(\<exists>w'. uploadData rs w = (Inr (), w') \<and>
            table w' = foldl upsert (table w) rs \<and>
            calls w' = calls w @ sync_calls (table w) rs \<and>
            console w' = console w @ [Log_DataUploaded]) \<and>
         find (\<lambda>x. channel x = channel r) (upsert t r) = Some r \<and>
         filter (\<lambda>x. channel x \<noteq> channel r) (upsert t r) =
           filter (\<lambda>x. channel x \<noteq> channel r) t \<and>
         length (upsert t r) = (if has_channel t (channel r) then length t else Suc (length t))"
  using uploadData_no_faults [OF assms, of rs]
  by (simp only: find_upsert_same filter_upsert_other length_upsert) blast

theorem uploadData_upserts_each_record_in_order_witness:
  "no_faults stocked_world \<and>
   fst (uploadData example_records stocked_world) = Inr () \<and>
   table (snd (uploadData example_records stocked_world)) =
     [\<lparr>channel = Finite 9, frequency = Finite 5\<rparr>,
      \<lparr>channel = Finite 7, frequency = Finite 102\<rparr>] \<and>
   calls (snd (uploadData example_records stocked_world)) =
     [FindFirst (Finite 7), Create (Finite 7) (Finite (203 / 2)),
      FindFirst (Finite 7), Update (Finite 7) (Finite 102),
      FindFirst (Finite 9), Update (Finite 9) (Finite 5)] \<and>
   console (snd (uploadData example_records stocked_world)) = [Log_DataUploaded]"
proof -
  have h: "no_faults stocked_world"
    by (simp add: no_faults_def stocked_world_def)
  have t: "foldl upsert (table stocked_world) example_records =
     [\<lparr>channel = Finite 9, frequency = Finite 5\<rparr>,
      \<lparr>channel = Finite 7, frequency = Finite 102\<rparr>]"
    by (simp add: stocked_world_def example_records_def upsert_def has_channel_def)
  have c: "calls stocked_world @ sync_calls (table stocked_world) example_records =
     [FindFirst (Finite 7), Create (Finite 7) (Finite (203 / 2)),
      FindFirst (Finite 7), Update (Finite 7) (Finite 102),
      FindFirst (Finite 9), Update (Finite 9) (Finite 5)]"
    by (simp add: stocked_world_def example_records_def upsert_def upsert_calls_def
        has_channel_def)
  have l: "console stocked_world = []" by (simp add: stocked_world_def)
  from uploadData_upserts_each_record_in_order [OF h, of example_records]
  obtain w' where "uploadData example_records stocked_world = (Inr (), w')"
    "table w' = foldl upsert (table stocked_world) example_records"
    "calls w' = calls stocked_world @ sync_calls (table stocked_world) example_records"
    "console w' = console stocked_world @ [Log_DataUploaded]" by blast
  with h t c l show ?thesis by simp
qed

text \<open>
  Claim C3. Uniqueness invariant: if the store holds at most one row for each channel
  before \<open>uploadData\<close> runs, then it holds at most one row for each channel after
  \<open>uploadData\<close> has run on any record sequence, whether or not store calls fail.
\<close>

theorem uploadData_keeps_channels_unique:
  "unique_channels (table w) \<Longrightarrow> unique_channels (table (snd (uploadData rs w)))"
  using uploadData_loop_unique [of w rs]
  by (cases "uploadData_loop rs w"; cases "fst (uploadData_loop rs w)")
     (auto simp: uploadData_def console_write_def)

theorem uploadData_keeps_channels_unique_witness:
  "unique_channels (table faulty_world) \<and>
   unique_channels (table (snd (uploadData example_records faulty_world)))"
proof -
  have h: "unique_channels (table faulty_world)"
    by (simp add: unique_channels_def faulty_world_def)
  from h uploadData_keeps_channels_unique [OF h, of example_records]
  show ?thesis by simp
qed

text \<open>
  Claim C4. Idempotence of synchronization: on a store that holds at most one row
  for each channel and on which no call fails, running \<open>uploadData\<close> twice in
  succession with the same record sequence gives a store in which every channel of
  the sequence has exactly one row, which is the last record of that channel in the
  sequence; the second run makes only queries and updates, no insertion; and the
  table after the two runs is the table after the first.
\<close>

theorem uploadData_twice_is_idempotent:
  assumes "no_faults w" and "unique_channels (table w)"
  shows "\<exists>w1 w2. uploadData rs w = (Inr (), w1) \<and> uploadData rs w1 = (Inr (), w2) \<and>
           table w2 = table w1 \<and>
           calls w2 = calls w1 @
             concat (map (\<lambda>r. [FindFirst (channel r), Update (channel r) (frequency r)]) rs) \<and>
           (\<forall>r\<in>set rs. rows_of_channel (table w2) (channel r) = 1 \<and>
              find (\<lambda>x. channel x = channel r) (table w2) =
                Some (last (filter (\<lambda>x. channel x = channel r) rs)))"
proof -
  from uploadData_no_faults [OF assms(1), of rs]
  obtain w1 where w1: "uploadData rs w = (Inr (), w1)" "no_faults w1"
    "table w1 = foldl upsert (table w) rs" by blast
  from uploadData_no_faults [OF w1(2), of rs]
  obtain w2 where w2: "uploadData rs w1 = (Inr (), w2)"
    "table w2 = foldl upsert (table w1) rs"
    "calls w2 = calls w1 @ sync_calls (table w1) rs" by blast
  have eq: "table w2 = table w1"
    using w1(3) w2(2) foldl_upsert_twice [OF assms(2), of rs] by simp
  have present: "\<forall>r\<in>set rs. has_channel (table w1) (channel r)"
    by (simp add: w1(3) has_channel_foldl_upsert has_channel_member)
  then have c: "sync_calls (table w1) rs =
      concat (map (\<lambda>r. [FindFirst (channel r), Update (channel r) (frequency r)]) rs)"
    by (simp add: present_channels_only_updated)
  have u: "unique_channels (table w1)"
    using assms(2) w1(3) by (simp add: foldl_upsert_unique)
  have "rows_of_channel (table w2) (channel r) = 1 \<and>
        find (\<lambda>x. channel x = channel r) (table w2) =
          Some (last (filter (\<lambda>x. channel x = channel r) rs))" if "r \<in> set rs" for r
  proof
    from that present u show "rows_of_channel (table w2) (channel r) = 1"
      by (simp add: eq unique_rows_of_channel)
    from that have "has_channel rs (channel r)" by (simp add: has_channel_def)
    then show "find (\<lambda>x. channel x = channel r) (table w2) =
          Some (last (filter (\<lambda>x. channel x = channel r) rs))"
      by (simp add: eq w1(3) find_foldl_upsert)
  qed
  then have "\<forall>r\<in>set rs. rows_of_channel (table w2) (channel r) = 1 \<and>
        find (\<lambda>x. channel x = channel r) (table w2) =
          Some (last (filter (\<lambda>x. channel x = channel r) rs))" by blast
  with w1(1) w2(1) w2(3) eq c show ?thesis
    by (intro exI [of _ w1] exI [of _ w2]) simp
qed

theorem uploadData_twice_is_idempotent_witness:
  "no_faults stocked_world \<and> unique_channels (table stocked_world) \<and>
   table (snd (uploadData example_records stocked_world)) =
     [\<lparr>channel = Finite 9, frequency = Finite 5\<rparr>,
      \<lparr>channel = Finite 7, frequency = Finite 102\<rparr>] \<and>
   table (snd (uploadData example_records (snd (uploadData example_records stocked_world)))) =
     [\<lparr>channel = Finite 9, frequency = Finite 5\<rparr>,
      \<lparr>channel = Finite 7, frequency = Finite 102\<rparr>] \<and>
   rows_of_channel
     (table (snd (uploadData example_records (snd (uploadData example_records stocked_world)))))
     (Finite 7) = 1"
proof -
  have h: "no_faults stocked_world" "unique_channels (table stocked_world)"
    by (simp_all add: no_faults_def unique_channels_def stocked_world_def)
  have r: "\<lparr>channel = Finite 7, frequency = Finite 102\<rparr> \<in> set example_records"
    by (simp add: example_records_def)
  from uploadData_twice_is_idempotent [OF h, of example_records]
  obtain w1 w2 where w: "uploadData example_records stocked_world = (Inr (), w1)"
    "uploadData example_records w1 = (Inr (), w2)" "table w2 = table w1"
    "\<forall>r\<in>set example_records. rows_of_channel (table w2) (channel r) = 1 \<and>
       find (\<lambda>x. channel x = channel r) (table w2) =
         Some (last (filter (\<lambda>x. channel x = channel r) example_records))"
    by blast
  from w(4) r have n: "rows_of_channel (table w2) (Finite 7) = 1" by fastforce
  from uploadData_no_faults [OF h(1), of example_records] w(1)
  have "table w1 = foldl upsert (table stocked_world) example_records" by auto
  then have t: "table w1 = [\<lparr>channel = Finite 9, frequency = Finite 5\<rparr>,
      \<lparr>channel = Finite 7, frequency = Finite 102\<rparr>]"
    by (simp add: stocked_world_def example_records_def upsert_def has_channel_def)
  from h w(1,2,3) n t show ?thesis by simp
qed

text \<open>
  Claim C5. If a store operation (the query, the update or the insertion) fails while
  \<open>uploadData\<close> handles record number \<open>i\<close>, here the record \<open>r\<close> that follows the
  \<open>i - 1\<close> records \<open>pre\<close>, then the records after it are not handled (the last
  store call is one made for \<open>r\<close>), an error is logged and no success message,
  \<open>uploadData\<close> does not throw, and the table is what the upserts of the records
  \<open>pre\<close> made it: nothing is rolled back.
\<close>

theorem uploadData_stops_at_first_failure:
  assumes "uploadData_loop pre w = (Inr (), w1)" and "upload_record r w1 = (Inl e, w2)"
  shows "uploadData (pre @ r # post) w = (Inr (), console_write (Err_UpdatingData e) w2) \<and>
         is_error_line (Err_UpdatingData e) \<and>
         console w2 = console w \<and>
         table w2 = foldl upsert (table w) pre \<and>
         (calls w2 = calls w @ sync_calls (table w) pre @ [FindFirst (channel r)] \<or>
          calls w2 = calls w @ sync_calls (table w) pre @
                       upsert_calls (foldl upsert (table w) pre) r)"
proof -
  from uploadData_loop_append [OF assms(1), of "r # post"] assms(2)
  have "uploadData_loop (pre @ r # post) w = (Inl e, w2)" by simp
  then have a: "uploadData (pre @ r # post) w = (Inr (), console_write (Err_UpdatingData e) w2)"
    by (simp add: uploadData_def)
  from uploadData_loop_console [of pre w] assms(1) have c: "console w1 = console w" by simp
  from uploadData_loop_Inr [OF assms(1)] upload_record_Inl [OF assms(2)] a c
  show ?thesis by auto
qed

theorem uploadData_stops_at_first_failure_witness:
  "uploadData_loop [\<lparr>channel = Finite 7, frequency = Finite (203 / 2)\<rparr>] faulty_world =
     (Inr (), after_first_record) \<and>
   upload_record \<lparr>channel = Finite 7, frequency = Finite 102\<rparr> after_first_record =
     (Inl (StoreCallFailed (Update (Finite 7) (Finite 102))), at_failure) \<and>
   uploadData example_records faulty_world =
     (Inr (), console_write
        (Err_UpdatingData (StoreCallFailed (Update (Finite 7) (Finite 102)))) at_failure) \<and>
   table at_failure = foldl upsert (table faulty_world)
     [\<lparr>channel = Finite 7, frequency = Finite (203 / 2)\<rparr>]"
proof -
  have a: "uploadData_loop [\<lparr>channel = Finite 7, frequency = Finite (203 / 2)\<rparr>] faulty_world =
     (Inr (), after_first_record)"
    by (simp add: upload_record_def findFirst_def create_def client_call_def
        faulty_world_def after_first_record_def)
  have b: "upload_record \<lparr>channel = Finite 7, frequency = Finite 102\<rparr> after_first_record =
     (Inl (StoreCallFailed (Update (Finite 7) (Finite 102))), at_failure)"
    by (simp add: upload_record_def findFirst_def update_def client_call_def
        after_first_record_def at_failure_def)
  from uploadData_stops_at_first_failure
    [OF a b, of "[\<lparr>channel = Finite 9, frequency = Finite 5\<rparr>]"] a b
  show ?thesis by (simp add: example_records_def)
qed

text \<open>
  Claim C10. Applied to the empty record sequence, \<open>uploadData\<close> makes no call on
  the store, leaves every stored row as it was, and logs the success message.
\<close>

theorem uploadData_of_no_records_leaves_store_alone:
  "uploadData [] w = (Inr (), console_write Log_DataUploaded w) \<and>
   calls (console_write Log_DataUploaded w) = calls w \<and>
   table (console_write Log_DataUploaded w) = table w \<and>
   faults (console_write Log_DataUploaded w) = faults w \<and>
   console (console_write Log_DataUploaded w) = console w @ [Log_DataUploaded] \<and>
   \<not> is_error_line Log_DataUploaded"
  by (simp add: uploadData_def console_write_def)

theorem uploadData_of_no_records_leaves_store_alone_witness:
  "uploadData [] stocked_world =
     (Inr (), stocked_world\<lparr>console := [Log_DataUploaded]\<rparr>) \<and>
   calls (snd (uploadData [] stocked_world)) = [] \<and>
   table (snd (uploadData [] stocked_world)) = [\<lparr>channel = Finite 9, frequency = Finite 1\<rparr>]"
  using uploadData_of_no_records_leaves_store_alone [of stocked_world]
  by (simp add: console_write_def stocked_world_def)

section \<open>main: properties\<close>

lemma uploadData_resolves: "fst (uploadData rs w) = Inr ()"
  by (cases "uploadData_loop rs w"; cases "fst (uploadData_loop rs w)")
     (auto simp: uploadData_def)

lemma fetchData_resolves: "fst (fetchData w) = Inr ()"
  by (cases "findMany w"; cases "fst (findMany w)") (auto simp: fetchData_def)

lemma main_try_resolves: "fst (main_try rt w) = Inr ()"
proof -
  obtain w1 where a: "readExcelFile rt ''D:/ExcelToTable.xlsx'' w = (Inr [], w1)"
    using readExcelFile_empty [of rt "''D:/ExcelToTable.xlsx''" w]
    by (cases "readExcelFile rt ''D:/ExcelToTable.xlsx'' w") auto
  obtain w2 where b: "uploadData [] w1 = (Inr (), w2)"
    using uploadData_resolves [of "[]" w1] by (cases "uploadData [] w1") auto
  obtain w3 where c: "fetchData w2 = (Inr (), w3)"
    using fetchData_resolves [of w2] by (cases "fetchData w2") auto
  from a b c show ?thesis by (simp add: main_try_def)
qed

lemma main_try_catch_resolves: "fst (main_try_catch rt w) = Inr ()"
  using main_try_resolves [of rt w]
  by (cases "main_try rt w") (auto simp: main_try_catch_def)

lemma disconnect_cases:
  "(disconnect w = (Inr (), w\<lparr>calls := calls w @ [Disconnect], faults := tl (faults w),
                              connected := False\<rparr>)) \<or>
   (disconnect w = (Inl (StoreCallFailed Disconnect),
                    w\<lparr>calls := calls w @ [Disconnect], faults := tl (faults w)\<rparr>))"
  by (cases "faults w") (auto simp: disconnect_def client_call_def)

text \<open>
  Claim C9. On every execution path of \<open>main\<close> the store connection is released:
  \<^verbatim>\<open>prisma.$disconnect\<close> is the last call made on the client, whatever happened in
  the stages. No stage throws (extraction, synchronization and reporting each
  resolve), the \<^verbatim>\<open>try\<close> and \<^verbatim>\<open>catch\<close> of \<open>main\<close> never throw, and so the only
  error that can leave \<open>main\<close> is a failure of \<^verbatim>\<open>$disconnect\<close> itself; when
  \<open>main\<close> resolves, the connection is closed.
\<close>

theorem main_always_disconnects:
  "(\<exists>excelData. fst (readExcelFile rt path w) = Inr excelData) \<and>
   fst (uploadData rs w) = Inr () \<and>
   fst (fetchData w) = Inr () \<and>
   fst (main_try_catch rt w) = Inr () \<and>
   calls (snd (main rt w)) = calls (snd (main_try_catch rt (new_PrismaClient w))) @ [Disconnect] \<and>
   (fst (main rt w) = Inr () \<or> fst (main rt w) = Inl (StoreCallFailed Disconnect)) \<and>
   (fst (main rt w) = Inr () \<longrightarrow> \<not> connected (snd (main rt w)))"
proof -
  obtain w1 where a: "main_try_catch rt (new_PrismaClient w) = (Inr (), w1)"
    using main_try_catch_resolves [of rt "new_PrismaClient w"]
    by (cases "main_try_catch rt (new_PrismaClient w)") auto
  from disconnect_cases [of w1] a
  have "calls (snd (main rt w)) = calls w1 @ [Disconnect] \<and>
        (fst (main rt w) = Inr () \<or> fst (main rt w) = Inl (StoreCallFailed Disconnect)) \<and>
        (fst (main rt w) = Inr () \<longrightarrow> \<not> connected (snd (main rt w)))"
    by (auto simp: main_def)
  with a show ?thesis
    by (simp add: readExcelFile_empty uploadData_resolves fetchData_resolves
        main_try_catch_resolves)
qed

theorem main_always_disconnects_witness:
  "main example_runtime failing_report_world =
     (Inr (),
      \<lparr>console = [Err_InvalidChannel 1, Err_InvalidChannel 2, Err_InvalidChannel 4,
                  Log_DataUploaded, Err_FetchingData (StoreCallFailed FindMany), Log_Completed],
       table = [], faults = [], calls = [FindMany, Disconnect], connected = False\<rparr>) \<and>
   fst (main example_runtime failing_report_world) = Inr () \<and>
   \<not> connected (snd (main example_runtime failing_report_world))"
proof -
  have r: "readExcelFile example_runtime ''D:/ExcelToTable.xlsx''
             (new_PrismaClient failing_report_world) =
           (Inr [], \<lparr>console = [Err_InvalidChannel 1, Err_InvalidChannel 2, Err_InvalidChannel 4],
                     table = [], faults = [True], calls = [], connected = True\<rparr>)"
  proof -
    have rf: "readFile example_runtime ''D:/ExcelToTable.xlsx'' = Inr example_workbook"
      by (simp add: example_runtime_def)
    have wb: "example_workbook 1 = Some example_sheet"
      by (simp add: example_workbook_def)
    have rn: "row_numbers_from example_sheet (Suc 0) = [Suc 0, 2, 4]"
      by (simp add: example_sheet_def)
    show ?thesis
      by (simp add: readExcelFile_sheet [OF rf wb] rn new_PrismaClient_def
          failing_report_world_def)
  qed
  have m: "main example_runtime failing_report_world =
     (Inr (),
      \<lparr>console = [Err_InvalidChannel 1, Err_InvalidChannel 2, Err_InvalidChannel 4,
                  Log_DataUploaded, Err_FetchingData (StoreCallFailed FindMany), Log_Completed],
       table = [], faults = [], calls = [FindMany, Disconnect], connected = False\<rparr>)"
    by (simp add: main_def main_try_catch_def main_try_def r uploadData_def fetchData_def
        findMany_def disconnect_def client_call_def console_write_def)
  then have f: "fst (main example_runtime failing_report_world) = Inr ()" by simp
  from main_always_disconnects [of example_runtime _ failing_report_world] f
  have "\<not> connected (snd (main example_runtime failing_report_world))" by blast
  with m f show ?thesis by simp
qed

end
